theory Spec2Isabelle
  imports Complex_Main
begin

section \<open>Hyperparameter search for a Gaussian process (docs/scripts/gauss.f.py)\<close>

subsection \<open>Values and errors\<close>

text \<open>
  The script computes with numpy float64 scalars and arrays. A scalar is finite, an
  infinity or NaN. Finite results are kept as exact reals: rounding to 53 bits is not
  part of the model, the limits of the float64 range are.
\<close>

datatype npfloat = Fin real | PInf | NInf | NaN

type_synonym vec = "npfloat list"

text \<open>
  Exceptions are values. \<open>IndexError\<close> is raised by the script's own indexing; the
  other two are the failures of the library calls (\<open>rbf.gauss.gpse\<close>, \<open>likelihood\<close>,
  \<open>fmin\<close>).
\<close>

datatype error = DomainError | NumericalError | IndexError

definition bind_err :: "error + 'a \<Rightarrow> ('a \<Rightarrow> error + 'b) \<Rightarrow> error + 'b" where
  "bind_err r k = (case r of Inl e \<Rightarrow> Inl e | Inr v \<Rightarrow> k v)"

definition getitem :: "'a list \<Rightarrow> nat \<Rightarrow> error + 'a" where
  "getitem xs i = (if i < length xs then Inr (xs ! i) else Inl IndexError)"

subsection \<open>numpy's elementwise functions\<close>

text \<open>
  A float64 result of magnitude at most \<open>2 ^ -1075\<close> (half of the smallest subnormal)
  is \<open>0.0\<close>; one of at least \<open>2 ^ 1024 - 2 ^ 970\<close> (the largest finite value plus half
  a unit in its last place) is \<open>inf\<close>.
\<close>

definition underflow_bound :: real where
  "underflow_bound = 1 / 2 ^ 1075"

definition overflow_bound :: real where
  "overflow_bound = 2 ^ 1024 - 2 ^ 970"

text \<open>\<open>np.exp\<close>: no exception is raised, whatever the argument.\<close>

definition np_exp :: "npfloat \<Rightarrow> npfloat" where
  "np_exp v =
     (case v of
        Fin x \<Rightarrow>
          (if overflow_bound \<le> exp x then PInf
           else if exp x \<le> underflow_bound then Fin 0
           else Fin (exp x))
      | PInf \<Rightarrow> PInf
      | NInf \<Rightarrow> Fin 0
      | NaN \<Rightarrow> NaN)"

text \<open>
  \<open>np.log\<close>: with numpy's default error settings (the script does not change them) a
  zero gives \<open>-inf\<close> and a negative number gives \<open>nan\<close>, each with a warning only.
\<close>

definition np_log :: "npfloat \<Rightarrow> npfloat" where
  "np_log v =
     (case v of
        Fin x \<Rightarrow> (if 0 < x then Fin (ln x) else if x = 0 then NInf else NaN)
      | PInf \<Rightarrow> PInf
      | NInf \<Rightarrow> NaN
      | NaN \<Rightarrow> NaN)"

text \<open>Unary minus on a float.\<close>

definition np_neg :: "npfloat \<Rightarrow> npfloat" where
  "np_neg v = (case v of Fin x \<Rightarrow> Fin (- x) | PInf \<Rightarrow> NInf | NInf \<Rightarrow> PInf | NaN \<Rightarrow> NaN)"

subsection \<open>The objective and the constrained simplex search\<close>

text \<open>
  \<open>rbf.gauss.gpse\<close>, the \<open>likelihood\<close> method of the object it builds and
  \<open>scipy.optimize.fmin\<close> are not part of the script: they are parameters of the model.
  Each may raise. A hyperparameter triple is \<open>(a, b, c)\<close>.
\<close>

type_synonym hyper = "npfloat \<times> npfloat \<times> npfloat"

text \<open>
  \<^verbatim>\<open>def objective(x,t,d,sigma):
    gp  = rbf.gauss.gpse((0.0,x[0],x[1]))
    return -gp.likelihood(t,d,sigma=sigma)\<close>
\<close>

definition objective ::
  "(hyper \<Rightarrow> error + 'gp) \<Rightarrow> ('gp \<Rightarrow> 't \<Rightarrow> 'd \<Rightarrow> 's \<Rightarrow> error + npfloat) \<Rightarrow>
   vec \<Rightarrow> 't \<Rightarrow> 'd \<Rightarrow> 's \<Rightarrow> error + npfloat" where
  "objective gpse likelihood x t d sigma =
     bind_err (getitem x 0) (\<lambda>x0.
     bind_err (getitem x 1) (\<lambda>x1.
     bind_err (gpse (Fin 0, x0, x1)) (\<lambda>gp.
     bind_err (likelihood gp t d sigma) (\<lambda>l.
     Inr (np_neg l)))))"

text \<open>
  The minimizer calls its function as \<open>func(x, *args)\<close>; the script passes
  \<open>args=(t,d,sigma)\<close>.
\<close>

definition objective_args ::
  "(hyper \<Rightarrow> error + 'gp) \<Rightarrow> ('gp \<Rightarrow> 't \<Rightarrow> 'd \<Rightarrow> 's \<Rightarrow> error + npfloat) \<Rightarrow>
   vec \<Rightarrow> 't \<times> 'd \<times> 's \<Rightarrow> error + npfloat" where
  "objective_args gpse likelihood x args =
     (case args of (t, d, sigma) \<Rightarrow> objective gpse likelihood x t d sigma)"

text \<open>
  \<^verbatim>\<open>def fmin_pos(func,x0,*args,**kwargs):
    def pos_func(x,*blargs):
      return func(np.exp(x),*blargs)

    out = fmin(pos_func,np.log(x0),*args,**kwargs)
    out = np.exp(out)
    return out\<close>
  The inner function is lifted, with \<open>func\<close> as its first argument.
\<close>

definition pos_func :: "(vec \<Rightarrow> 'a \<Rightarrow> 'r) \<Rightarrow> vec \<Rightarrow> 'a \<Rightarrow> 'r" where
  "pos_func func x blargs = func (map np_exp x) blargs"

type_synonym 'a minimizer = "(vec \<Rightarrow> 'a \<Rightarrow> error + npfloat) \<Rightarrow> vec \<Rightarrow> 'a \<Rightarrow> error + vec"

definition fmin_pos ::
  "'a minimizer \<Rightarrow> (vec \<Rightarrow> 'a \<Rightarrow> error + npfloat) \<Rightarrow> vec \<Rightarrow> 'a \<Rightarrow> error + vec" where
  "fmin_pos fmin func x0 args =
     bind_err (fmin (pos_func func) (map np_log x0) args) (\<lambda>out.
     Inr (map np_exp out))"

text \<open>
  The log likelihood of the observations under the process with the given
  hyperparameters: build the process, ask it for the likelihood.
\<close>

definition logL ::
  "(hyper \<Rightarrow> error + 'gp) \<Rightarrow> ('gp \<Rightarrow> 't \<Rightarrow> 'd \<Rightarrow> 's \<Rightarrow> error + npfloat) \<Rightarrow>
   hyper \<Rightarrow> 't \<Rightarrow> 'd \<Rightarrow> 's \<Rightarrow> error + npfloat" where
  "logL gpse likelihood h t d sigma = bind_err (gpse h) (\<lambda>gp. likelihood gp t d sigma)"

definition negated :: "error + npfloat \<Rightarrow> error + npfloat" where
  "negated r = bind_err r (\<lambda>l. Inr (np_neg l))"

subsection \<open>The grid search\<close>

text \<open>
  The module's variables: the observation points \<open>t\<close>, the observations \<open>d\<close>, the
  noise \<open>sigma\<close> and the surface \<open>likelihoods\<close>, a two-dimensional array.
\<close>

type_synonym array2 = "npfloat list list"

record ('t, 'd, 's) globals =
  gt :: 't
  gd :: 'd
  gsigma :: 's
  likelihoods :: array2

text \<open>\<open>np.zeros((r,c))\<close>.\<close>

definition zeros :: "nat \<Rightarrow> nat \<Rightarrow> array2" where
  "zeros r c = replicate r (replicate c (Fin 0))"

text \<open>\<open>a[i,j] = v\<close> with indices from \<open>enumerate\<close>: out of range raises IndexError.\<close>

definition setitem2 :: "array2 \<Rightarrow> nat \<Rightarrow> nat \<Rightarrow> npfloat \<Rightarrow> error + array2" where
  "setitem2 a i j v =
     (if i < length a \<and> j < length (a ! i) then Inr (a[i := (a ! i)[j := v]])
      else Inl IndexError)"

text \<open>
  The body of the two loops:
  \<^verbatim>\<open>gp = rbf.gauss.gpse((0.0,b_test,c_test))
  likelihoods[i,j] = gp.likelihood(t,d,sigma=sigma)\<close>
\<close>

definition grid_cell ::
  "(hyper \<Rightarrow> error + 'gp) \<Rightarrow> ('gp \<Rightarrow> 't \<Rightarrow> 'd \<Rightarrow> 's \<Rightarrow> error + npfloat) \<Rightarrow>
   nat \<Rightarrow> npfloat \<Rightarrow> nat \<Rightarrow> npfloat \<Rightarrow> ('t, 'd, 's) globals \<Rightarrow> error + ('t, 'd, 's) globals" where
  "grid_cell gpse likelihood i b_test j c_test st =
     bind_err (gpse (Fin 0, b_test, c_test)) (\<lambda>gp.
     bind_err (likelihood gp (gt st) (gd st) (gsigma st)) (\<lambda>v.
     bind_err (setitem2 (likelihoods st) i j v) (\<lambda>a.
     Inr (st\<lparr>likelihoods := a\<rparr>))))"

text \<open>\<open>for j,c_test in enumerate(c_search)\<close>, from index \<open>j\<close> on.\<close>

fun inner_loop ::
  "(hyper \<Rightarrow> error + 'gp) \<Rightarrow> ('gp \<Rightarrow> 't \<Rightarrow> 'd \<Rightarrow> 's \<Rightarrow> error + npfloat) \<Rightarrow>
   nat \<Rightarrow> npfloat \<Rightarrow> nat \<Rightarrow> vec \<Rightarrow> ('t, 'd, 's) globals \<Rightarrow> error + ('t, 'd, 's) globals" where
  "inner_loop gpse likelihood i b_test j [] st = Inr st"
| "inner_loop gpse likelihood i b_test j (c_test # cs) st =
     (case grid_cell gpse likelihood i b_test j c_test st of
        Inl e \<Rightarrow> Inl e
      | Inr st' \<Rightarrow> inner_loop gpse likelihood i b_test (Suc j) cs st')"

text \<open>\<open>for i,b_test in enumerate(b_search)\<close>, from index \<open>i\<close> on.\<close>

fun outer_loop ::
  "(hyper \<Rightarrow> error + 'gp) \<Rightarrow> ('gp \<Rightarrow> 't \<Rightarrow> 'd \<Rightarrow> 's \<Rightarrow> error + npfloat) \<Rightarrow>
   nat \<Rightarrow> vec \<Rightarrow> vec \<Rightarrow> ('t, 'd, 's) globals \<Rightarrow> error + ('t, 'd, 's) globals" where
  "outer_loop gpse likelihood i [] c_search st = Inr st"
| "outer_loop gpse likelihood i (b_test # bs) c_search st =
     (case inner_loop gpse likelihood i b_test 0 c_search st of
        Inl e \<Rightarrow> Inl e
      | Inr st' \<Rightarrow> outer_loop gpse likelihood (Suc i) bs c_search st')"

text \<open>
  Lines 30 to 34: the surface starts as \<open>m \<times> m\<close> zeros (\<open>m = 30\<close> in the script) and
  the two loops fill it.
\<close>

definition grid_search ::
  "(hyper \<Rightarrow> error + 'gp) \<Rightarrow> ('gp \<Rightarrow> 't \<Rightarrow> 'd \<Rightarrow> 's \<Rightarrow> error + npfloat) \<Rightarrow>
   nat \<Rightarrow> vec \<Rightarrow> vec \<Rightarrow> ('t, 'd, 's) globals \<Rightarrow> error + ('t, 'd, 's) globals" where
  "grid_search gpse likelihood m b_search c_search st =
     outer_loop gpse likelihood 0 b_search c_search (st\<lparr>likelihoods := zeros m m\<rparr>)"

subsection \<open>The arrays handed to the library\<close>

text \<open>
  \<open>t\<close>, \<open>d\<close> and \<open>sigma\<close> are numpy arrays, passed to \<open>likelihood\<close> by reference: the
  callee can write into them. To say what an evaluation leaves alone, the library call
  is taken here as returning its value together with the contents of the three arrays
  after the call, and the script's code is threaded through it. \<open>gpse\<close> receives a tuple
  of floats only.
\<close>

type_synonym ('gp, 't, 'd, 's) likelihood_io =
  "'gp \<Rightarrow> 't \<Rightarrow> 'd \<Rightarrow> 's \<Rightarrow> (error + npfloat) \<times> ('t \<times> 'd \<times> 's)"

text \<open>\<open>objective\<close>, with the arrays after the call beside the value.\<close>

definition objective_io ::
  "(hyper \<Rightarrow> error + 'gp) \<Rightarrow> ('gp, 't, 'd, 's) likelihood_io \<Rightarrow>
   vec \<Rightarrow> 't \<Rightarrow> 'd \<Rightarrow> 's \<Rightarrow> (error + npfloat) \<times> ('t \<times> 'd \<times> 's)" where
  "objective_io gpse likelihood_io x t d sigma =
     (case getitem x 0 of
        Inl e \<Rightarrow> (Inl e, (t, d, sigma))
      | Inr x0 \<Rightarrow>
     (case getitem x 1 of
        Inl e \<Rightarrow> (Inl e, (t, d, sigma))
      | Inr x1 \<Rightarrow>
     (case gpse (Fin 0, x0, x1) of
        Inl e \<Rightarrow> (Inl e, (t, d, sigma))
      | Inr gp \<Rightarrow>
     (case likelihood_io gp t d sigma of
        (r, arrays) \<Rightarrow> (bind_err r (\<lambda>l. Inr (np_neg l)), arrays)))))"

text \<open>
  The body of the two loops on the module's variables: what the library left in \<open>t\<close>,
  \<open>d\<close> and \<open>sigma\<close> is what the module holds afterwards, and the value goes into the cell.
\<close>

definition grid_cell_io ::
  "(hyper \<Rightarrow> error + 'gp) \<Rightarrow> ('gp, 't, 'd, 's) likelihood_io \<Rightarrow>
   nat \<Rightarrow> npfloat \<Rightarrow> nat \<Rightarrow> npfloat \<Rightarrow> ('t, 'd, 's) globals \<Rightarrow> error + ('t, 'd, 's) globals" where
  "grid_cell_io gpse likelihood_io i b_test j c_test st =
     bind_err (gpse (Fin 0, b_test, c_test)) (\<lambda>gp.
     case likelihood_io gp (gt st) (gd st) (gsigma st) of
       (r, (t', d', sigma')) \<Rightarrow>
         bind_err r (\<lambda>v.
         bind_err (setitem2 (likelihoods st) i j v) (\<lambda>a.
         Inr (st\<lparr>gt := t', gd := d', gsigma := sigma', likelihoods := a\<rparr>))))"

text \<open>
  Modelled from the spec: the \<open>likelihood\<close> method of \<open>rbf.gauss\<close>, which is not among the
  sources. The design says of it "Deterministic, pure, no side effects" (4.2) and "Every
  LikelihoodEvaluator call is independent and side-effect-free" (5): whatever it is
  called with, the three arrays hold afterwards what they held before.
\<close>

definition side_effect_free :: "('gp, 't, 'd, 's) likelihood_io \<Rightarrow> bool" where
  "side_effect_free likelihood_io =
     (\<forall>gp t d sigma. snd (likelihood_io gp t d sigma) = (t, d, sigma))"

subsection \<open>Predicates on floats\<close>

definition is_pos :: "npfloat \<Rightarrow> bool" where
  "is_pos v = (case v of Fin y \<Rightarrow> 0 < y | PInf \<Rightarrow> True | NInf \<Rightarrow> False | NaN \<Rightarrow> False)"

definition is_nonneg :: "npfloat \<Rightarrow> bool" where
  "is_nonneg v = (case v of Fin y \<Rightarrow> 0 \<le> y | PInf \<Rightarrow> True | NInf \<Rightarrow> False | NaN \<Rightarrow> False)"

definition is_finite :: "npfloat \<Rightarrow> bool" where
  "is_finite v = (case v of Fin y \<Rightarrow> True | PInf \<Rightarrow> False | NInf \<Rightarrow> False | NaN \<Rightarrow> False)"

definition at_least :: "real \<Rightarrow> npfloat \<Rightarrow> bool" where
  "at_least r v = (case v of Fin y \<Rightarrow> r \<le> y | PInf \<Rightarrow> True | NInf \<Rightarrow> False | NaN \<Rightarrow> False)"

subsection \<open>Stand-ins for the library calls\<close>

text \<open>
  Small instances of the three parameters, to run the model on concrete inputs: a
  process that is its own hyperparameters, one that rejects a zero length-scale, a
  likelihood that answers the variance \<open>b\<close>, one that always fails, a minimizer that
  evaluates its function once at the starting point and stays there, and one that
  evaluates nothing and answers a fixed point; and two likelihoods that hand back the
  arrays, one untouched, one with the observations overwritten by zeros.
\<close>

definition gpse_id :: "hyper \<Rightarrow> error + hyper" where
  "gpse_id h = Inr h"

definition gpse_nonzero :: "hyper \<Rightarrow> error + hyper" where
  "gpse_nonzero h = (case h of (a, b, c) \<Rightarrow> if c = Fin 0 then Inl DomainError else Inr h)"

definition likelihood_b :: "hyper \<Rightarrow> 't \<Rightarrow> 'd \<Rightarrow> 's \<Rightarrow> error + npfloat" where
  "likelihood_b gp t d sigma = (case gp of (a, b, c) \<Rightarrow> Inr b)"

definition likelihood_fail :: "hyper \<Rightarrow> 't \<Rightarrow> 'd \<Rightarrow> 's \<Rightarrow> error + npfloat" where
  "likelihood_fail gp t d sigma = Inl NumericalError"

definition fmin_stay :: "'a minimizer" where
  "fmin_stay f x0 args = bind_err (f x0 args) (\<lambda>y. Inr x0)"

definition fmin_const :: "vec \<Rightarrow> 'a minimizer" where
  "fmin_const p f x0 args = Inr p"

definition likelihood_b_io :: "(hyper, 't, 'd, 's) likelihood_io" where
  "likelihood_b_io gp t d sigma = (likelihood_b gp t d sigma, (t, d, sigma))"

definition likelihood_clobber :: "(hyper, 't, vec, 's) likelihood_io" where
  "likelihood_clobber gp t d sigma = (likelihood_b gp t d sigma, (t, map (\<lambda>v. Fin 0) d, sigma))"

subsection \<open>Basic facts\<close>

lemma bind_err_simps [simp]:
  "bind_err (Inl e) k = Inl e"
  "bind_err (Inr v) k = k v"
  by (simp_all add: bind_err_def)

lemma np_log_pos: "0 < x \<Longrightarrow> np_log (Fin x) = Fin (ln x)"
  by (simp add: np_log_def)

lemma objective_pair:
  "objective gpse likelihood [b, c] t d sigma = negated (logL gpse likelihood (Fin 0, b, c) t d sigma)"
  by (cases "gpse (Fin 0, b, c)") (simp_all add: objective_def getitem_def logL_def negated_def)

lemma underflow_bound_pos: "0 < underflow_bound"
  by (simp add: underflow_bound_def)

lemma underflow_bound_lt1: "underflow_bound < 1"
  by (simp add: underflow_bound_def)

lemma overflow_bound_gt1: "1 < overflow_bound"
  by (simp add: overflow_bound_def)

lemma np_exp_zero: "np_exp (Fin 0) = Fin 1"
  using overflow_bound_gt1 underflow_bound_lt1 by (simp add: np_exp_def)

lemma np_exp_special: "np_exp NaN = NaN" "np_exp NInf = Fin 0" "np_exp PInf = PInf"
  by (simp_all add: np_exp_def)

lemma np_log_one: "np_log (Fin 1) = Fin 0"
  by (simp add: np_log_def)

text \<open>Bounds on the exponential, by squaring from the quadratic bounds near zero.\<close>

lemma exp_sixteenth: "exp (1/16 :: real) \<le> 273/256"
proof -
  have "exp (1/16 :: real) \<le> 1 + 1/16 + (1/16)\<^sup>2"
    by (rule exp_bound) simp_all
  also have "\<dots> = 273/256" by (simp add: power2_eq_square)
  finally show ?thesis .
qed

lemma exp_two_le: "exp (2 :: real) \<le> 8"
proof -
  have "exp (2::real) = exp (1/16) ^ 32"
    by (simp add: exp_of_nat_mult [symmetric])
  also have "\<dots> \<le> (273/256) ^ 32"
    by (rule power_mono [OF exp_sixteenth]) simp
  also have "\<dots> \<le> 8" by (simp add: power_divide)
  finally show ?thesis .
qed

lemma exp_700_le: "exp (700 :: real) \<le> 2 ^ 1050"
proof -
  have "exp (700::real) = exp 2 ^ 350"
    by (simp add: exp_of_nat_mult [symmetric])
  also have "\<dots> \<le> 8 ^ 350"
    by (rule power_mono [OF exp_two_le]) simp
  also have "\<dots> = (2::real) ^ 1050"
  proof -
    have "(8::real) = 2 ^ 3" by simp
    then show ?thesis by (simp only: power_mult [symmetric]) simp
  qed
  finally show ?thesis .
qed

lemma exp_two_ge: "(5::real) \<le> exp 2"
  using exp_lower_Taylor_quadratic [of "2::real"] by simp

lemma exp_1000_gt: "(2::real) ^ 1075 < exp 1000"
proof -
  have "(2::real) ^ 1075 < 5 ^ 500" by simp
  also have "\<dots> \<le> exp 2 ^ 500"
    by (rule power_mono [OF exp_two_ge]) simp
  also have "\<dots> = exp (1000::real)"
    by (simp add: exp_of_nat_mult [symmetric])
  finally show ?thesis .
qed

text \<open>\<open>np.exp(-1000.0)\<close> is \<open>0.0\<close>: the true value is below half the smallest subnormal.\<close>

lemma np_exp_underflow: "np_exp (Fin (- 1000)) = Fin 0"
proof -
  have "exp (- 1000 :: real) = 1 / exp 1000"
    by (simp add: exp_minus inverse_eq_divide)
  also have "\<dots> < 1 / 2 ^ 1075"
    using exp_1000_gt by (simp add: frac_less2)
  finally have lt: "exp (- 1000 :: real) < underflow_bound"
    by (simp add: underflow_bound_def)
  moreover have "exp (- 1000 :: real) < overflow_bound"
    using lt underflow_bound_lt1 overflow_bound_gt1 by linarith
  ultimately show ?thesis by (simp add: np_exp_def)
qed

lemma np_exp_nonneg: "v \<noteq> NaN \<Longrightarrow> is_nonneg (np_exp v)"
  by (cases v) (simp_all add: np_exp_def is_nonneg_def)

lemma np_exp_pos:
  assumes "at_least (- 700) v"
  shows "is_pos (np_exp v)"
proof (cases v)
  case (Fin x)
  with assms have "- 700 \<le> x" by (simp add: at_least_def)
  then have "exp (- x) \<le> exp 700" by simp
  also have "\<dots> \<le> 2 ^ 1050" by (rule exp_700_le)
  also have "\<dots> < (2::real) ^ 1075" by (rule power_strict_increasing) simp_all
  finally have "exp (- x) < 2 ^ 1075" .
  then have "1 / 2 ^ 1075 < 1 / exp (- x)"
    by (simp add: frac_less2)
  then have "underflow_bound < exp x"
    by (simp add: underflow_bound_def exp_minus inverse_eq_divide)
  with Fin show ?thesis by (simp add: np_exp_def is_pos_def)
qed (use assms in \<open>simp_all add: at_least_def np_exp_def is_pos_def\<close>)

lemma exp_600_lt: "exp (600 :: real) < overflow_bound"
proof -
  have "exp (600::real) = exp 2 ^ 300"
    by (simp add: exp_of_nat_mult [symmetric])
  also have "\<dots> \<le> 8 ^ 300"
    by (rule power_mono [OF exp_two_le]) simp
  also have "\<dots> = (2::real) ^ 900"
  proof -
    have "(8::real) = 2 ^ 3" by simp
    then show ?thesis by (simp only: power_mult [symmetric]) simp
  qed
  also have "\<dots> < overflow_bound"
    by (simp add: overflow_bound_def)
  finally show ?thesis .
qed

lemma np_exp_in_range:
  assumes "- 600 \<le> x" and "x \<le> 600"
  shows "np_exp (Fin x) = Fin (exp x)"
proof -
  have "exp x \<le> exp 600" using assms(2) by simp
  then have hi: "exp x < overflow_bound" using exp_600_lt by linarith
  have "is_pos (np_exp (Fin x))"
    using assms(1) by (intro np_exp_pos) (simp add: at_least_def)
  then have lo: "underflow_bound < exp x"
    using hi underflow_bound_pos by (simp add: np_exp_def is_pos_def split: if_splits)
  show ?thesis using hi lo by (simp add: np_exp_def)
qed

subsection \<open>The search runs in log space\<close>

text \<open>
  Claim C1. For a starting guess \<open>(b0, c0)\<close> with both components strictly positive,
  \<open>fmin_pos\<close> applied to \<open>objective\<close> calls the minimizer on the function
  \<open>(\<beta>, \<gamma>) \<mapsto> - logL (0, exp \<beta>, exp \<gamma>)\<close> with the starting point \<open>(log b0, log c0)\<close>,
  and returns the elementwise exponential of the point the minimizer returns (an
  exception of the minimizer is passed on). The exponential and the negation are the
  real ones wherever no float64 range limit is met: at a point \<open>(\<beta>, \<gamma>)\<close> with components
  between \<open>-600\<close> and \<open>600\<close> the function's value is minus the log likelihood at
  \<open>(0, exp \<beta>, exp \<gamma>)\<close> (its error, when that evaluation fails), and when the minimizer
  returns such a point the search returns \<open>(exp \<beta>, exp \<gamma>)\<close>.
\<close>

theorem fmin_pos_objective_log_space:
  assumes "0 < b0" and "0 < c0"
  shows "fmin_pos fmin (objective_args gpse likelihood) [Fin b0, Fin c0] (t, d, sigma) =
           (case fmin (pos_func (objective_args gpse likelihood)) [Fin (ln b0), Fin (ln c0)] (t, d, sigma) of
              Inl e \<Rightarrow> Inl e
            | Inr out \<Rightarrow> Inr (map np_exp out))
         \<and> (\<forall>\<beta> \<gamma>. pos_func (objective_args gpse likelihood) [\<beta>, \<gamma>] (t, d, sigma) =
                    negated (logL gpse likelihood (Fin 0, np_exp \<beta>, np_exp \<gamma>) t d sigma))
         \<and> (\<forall>\<beta> \<gamma> l. - 600 \<le> \<beta> \<and> \<beta> \<le> 600 \<and> - 600 \<le> \<gamma> \<and> \<gamma> \<le> 600 \<and>
                logL gpse likelihood (Fin 0, Fin (exp \<beta>), Fin (exp \<gamma>)) t d sigma = Inr (Fin l) \<longrightarrow>
                pos_func (objective_args gpse likelihood) [Fin \<beta>, Fin \<gamma>] (t, d, sigma) = Inr (Fin (- l)))
         \<and> (\<forall>\<beta> \<gamma> e. - 600 \<le> \<beta> \<and> \<beta> \<le> 600 \<and> - 600 \<le> \<gamma> \<and> \<gamma> \<le> 600 \<and>
                logL gpse likelihood (Fin 0, Fin (exp \<beta>), Fin (exp \<gamma>)) t d sigma = Inl e \<longrightarrow>
                pos_func (objective_args gpse likelihood) [Fin \<beta>, Fin \<gamma>] (t, d, sigma) = Inl e)
         \<and> (\<forall>\<beta> \<gamma>. - 600 \<le> \<beta> \<and> \<beta> \<le> 600 \<and> - 600 \<le> \<gamma> \<and> \<gamma> \<le> 600 \<and>
                fmin (pos_func (objective_args gpse likelihood)) [Fin (ln b0), Fin (ln c0)] (t, d, sigma) =
                  Inr [Fin \<beta>, Fin \<gamma>] \<longrightarrow>
                fmin_pos fmin (objective_args gpse likelihood) [Fin b0, Fin c0] (t, d, sigma) =
                  Inr [Fin (exp \<beta>), Fin (exp \<gamma>)])"
proof -
  have start: "map np_log [Fin b0, Fin c0] = [Fin (ln b0), Fin (ln c0)]"
    using assms by (simp add: np_log_pos)
  have run: "fmin_pos fmin (objective_args gpse likelihood) [Fin b0, Fin c0] (t, d, sigma) =
           (case fmin (pos_func (objective_args gpse likelihood)) [Fin (ln b0), Fin (ln c0)] (t, d, sigma) of
              Inl e \<Rightarrow> Inl e
            | Inr out \<Rightarrow> Inr (map np_exp out))"
    unfolding fmin_pos_def start by (simp add: bind_err_def)
  have func: "pos_func (objective_args gpse likelihood) [\<beta>, \<gamma>] (t, d, sigma) =
                negated (logL gpse likelihood (Fin 0, np_exp \<beta>, np_exp \<gamma>) t d sigma)" for \<beta> \<gamma>
    by (simp add: pos_func_def objective_args_def objective_pair)
  have val: "pos_func (objective_args gpse likelihood) [Fin \<beta>, Fin \<gamma>] (t, d, sigma) = Inr (Fin (- l))"
    if "- 600 \<le> \<beta>" "\<beta> \<le> 600" "- 600 \<le> \<gamma>" "\<gamma> \<le> 600"
      "logL gpse likelihood (Fin 0, Fin (exp \<beta>), Fin (exp \<gamma>)) t d sigma = Inr (Fin l)" for \<beta> \<gamma> l
    using that by (simp add: func np_exp_in_range negated_def np_neg_def)
  have err: "pos_func (objective_args gpse likelihood) [Fin \<beta>, Fin \<gamma>] (t, d, sigma) = Inl e"
    if "- 600 \<le> \<beta>" "\<beta> \<le> 600" "- 600 \<le> \<gamma>" "\<gamma> \<le> 600"
      "logL gpse likelihood (Fin 0, Fin (exp \<beta>), Fin (exp \<gamma>)) t d sigma = Inl e" for \<beta> \<gamma> e
    using that by (simp add: func np_exp_in_range negated_def)
  have res: "fmin_pos fmin (objective_args gpse likelihood) [Fin b0, Fin c0] (t, d, sigma) =
                  Inr [Fin (exp \<beta>), Fin (exp \<gamma>)]"
    if "- 600 \<le> \<beta>" "\<beta> \<le> 600" "- 600 \<le> \<gamma>" "\<gamma> \<le> 600"
      "fmin (pos_func (objective_args gpse likelihood)) [Fin (ln b0), Fin (ln c0)] (t, d, sigma) =
                  Inr [Fin \<beta>, Fin \<gamma>]" for \<beta> \<gamma>
    using that by (simp add: run np_exp_in_range)
  show ?thesis
    using run func val err res by blast
qed

theorem fmin_pos_objective_log_space_witness:
  "(0::real) < 2 \<and> (0::real) < 3 \<and>
   logL gpse_id likelihood_b (Fin 0, Fin (exp 1), Fin (exp 2)) () () () = Inr (Fin (exp 1)) \<and>
   pos_func (objective_args gpse_id likelihood_b) [Fin 1, Fin 2] ((), (), ()) =
     Inr (Fin (- exp 1)) \<and>
   fmin_const [Fin 1, Fin 2] (pos_func (objective_args gpse_id likelihood_b))
       [Fin (ln 2), Fin (ln 3)] ((), (), ()) = Inr [Fin 1, Fin 2] \<and>
   fmin_pos (fmin_const [Fin 1, Fin 2]) (objective_args gpse_id likelihood_b) [Fin 2, Fin 3]
       ((), (), ()) = Inr [Fin (exp 1), Fin (exp 2)]"
proof -
  have l: "logL gpse_id likelihood_b (Fin 0, Fin (exp 1), Fin (exp 2)) () () () = Inr (Fin (exp 1))"
    by (simp add: logL_def gpse_id_def likelihood_b_def)
  have m: "fmin_const [Fin 1, Fin 2] (pos_func (objective_args gpse_id likelihood_b))
       [Fin (ln 2), Fin (ln 3)] ((), (), ()) = Inr [Fin 1, Fin 2]"
    by (simp add: fmin_const_def)
  have p2: "(0::real) < 2" and p3: "(0::real) < 3" by simp_all
  note T = fmin_pos_objective_log_space [of 2 3 "fmin_const [Fin 1, Fin 2]" gpse_id
      likelihood_b "()" "()" "()", OF p2 p3]
  from T [THEN conjunct2, THEN conjunct2, THEN conjunct1, rule_format, of 1 2 "exp 1"] l
  have v: "pos_func (objective_args gpse_id likelihood_b) [Fin 1, Fin 2] ((), (), ()) =
     Inr (Fin (- exp 1))" by simp
  from T [THEN conjunct2, THEN conjunct2, THEN conjunct2, THEN conjunct2, rule_format, of 1 2] m
  have r: "fmin_pos (fmin_const [Fin 1, Fin 2]) (objective_args gpse_id likelihood_b) [Fin 2, Fin 3]
       ((), (), ()) = Inr [Fin (exp 1), Fin (exp 2)]" by simp
  show ?thesis using l m v r by simp
qed

subsection \<open>What the objective is evaluated at\<close>

text \<open>
  Claim C3: at every point with finite components the wrapped objective calls the
  objective at strictly positive arguments only. The docstring (fmin with positivity
  constraint) says so too, and the code breaks it at \<open>(-1000, 0)\<close>: the exponential of
  \<open>-1000\<close> underflows to \<open>0.0\<close>, and the objective is called at \<open>(0.0, 1.0)\<close>.
\<close>

theorem pos_func_zero_argument:
  "list_all is_finite [Fin (- 1000), Fin 0] \<and>
   \<not> list_all is_pos (map np_exp [Fin (- 1000), Fin 0]) \<and>
   pos_func (objective_args gpse_id likelihood_b) [Fin (- 1000), Fin 0] ((), (), ()) =
     objective_args gpse_id likelihood_b [Fin 0, Fin 1] ((), (), ())"
  by (simp add: pos_func_def np_exp_underflow np_exp_zero is_finite_def is_pos_def)

subsection \<open>What the search returns\<close>

text \<open>
  Claim C10: whatever finite point the minimizer returns, the pair handed back is
  strictly positive. The code breaks it for a minimizer that returns \<open>(-1000, 0)\<close>: the
  pair handed back is \<open>(0.0, 1.0)\<close>, by the same underflow.
\<close>

theorem fmin_pos_returns_zero:
  "list_all is_finite [Fin (- 1000), Fin 0] \<and>
   fmin_pos (fmin_const [Fin (- 1000), Fin 0]) (objective_args gpse_id likelihood_b)
      [Fin 1, Fin 1] ((), (), ()) = Inr [Fin 0, Fin 1] \<and>
   \<not> list_all is_pos [Fin 0, Fin 1]"
  by (simp add: fmin_pos_def fmin_const_def np_exp_underflow np_exp_zero is_finite_def
      is_pos_def)

subsection \<open>A starting guess that is not positive\<close>

text \<open>
  Claim C4, as stated: a starting guess with a non-positive component makes \<open>fmin_pos\<close>
  fail with a DomainError before the objective is evaluated. It fails at \<open>(-1, 1)\<close>:
  with a minimizer that evaluates the objective at its starting point and stays there,
  the search returns \<open>(nan, 1)\<close>; and when the likelihood fails, the error that comes
  back is the one of that evaluation.
\<close>

theorem fmin_pos_negative_start_returns:
  "fmin_pos fmin_stay (objective_args gpse_id likelihood_b) [Fin (- 1), Fin 1] ((), (), ()) \<noteq>
     Inl DomainError \<and>
   fmin_pos fmin_stay (objective_args gpse_id likelihood_b) [Fin (- 1), Fin 1] ((), (), ()) =
     Inr [NaN, Fin 1] \<and>
   fmin_pos fmin_stay (objective_args gpse_id likelihood_fail) [Fin (- 1), Fin 1] ((), (), ()) =
     Inl NumericalError"
  by (simp add: fmin_pos_def fmin_stay_def pos_func_def objective_args_def objective_def
      getitem_def gpse_id_def likelihood_b_def likelihood_fail_def np_log_def np_log_one
      np_exp_zero np_exp_special)

text \<open>
  Claim C4, amended: \<open>fmin_pos\<close> checks nothing. For a starting guess with a
  non-positive component it hands the minimizer the logarithm of the guess, which holds
  NaN (negative component) or \<open>-inf\<close> (zero component), and it fails exactly when the
  minimizer fails, with the minimizer's error; otherwise it returns the exponential of
  the minimizer's point.
\<close>

theorem fmin_pos_no_domain_check:
  assumes "b0 \<le> 0 \<or> c0 \<le> 0"
  shows "fmin_pos fmin func [Fin b0, Fin c0] args =
           (case fmin (pos_func func) (map np_log [Fin b0, Fin c0]) args of
              Inl e \<Rightarrow> Inl e
            | Inr out \<Rightarrow> Inr (map np_exp out))
         \<and> (NaN \<in> set (map np_log [Fin b0, Fin c0]) \<or> NInf \<in> set (map np_log [Fin b0, Fin c0]))"
proof
  show "fmin_pos fmin func [Fin b0, Fin c0] args =
           (case fmin (pos_func func) (map np_log [Fin b0, Fin c0]) args of
              Inl e \<Rightarrow> Inl e
            | Inr out \<Rightarrow> Inr (map np_exp out))"
    by (simp add: fmin_pos_def bind_err_def)
next
  from assms show "NaN \<in> set (map np_log [Fin b0, Fin c0]) \<or> NInf \<in> set (map np_log [Fin b0, Fin c0])"
    by (auto simp: np_log_def)
qed

theorem fmin_pos_no_domain_check_witness:
  "((0::real) \<le> 0 \<or> (1::real) \<le> 0) \<and>
   fmin_pos fmin_stay (objective_args gpse_id likelihood_b) [Fin 0, Fin 1] ((), (), ()) =
     Inr [Fin 0, Fin 1] \<and>
   NInf \<in> set (map np_log [Fin 0, Fin 1])"
  using fmin_pos_no_domain_check [of 0 1 fmin_stay "objective_args gpse_id likelihood_b" "((), (), ())"]
  by (simp add: fmin_stay_def pos_func_def objective_args_def objective_def getitem_def
      gpse_id_def likelihood_b_def np_log_def np_exp_zero np_exp_special)

subsection \<open>The loops of the grid search\<close>

lemma grid_cell_ok:
  assumes "logL gpse likelihood (Fin 0, b, c) (gt st) (gd st) (gsigma st) = Inr v"
    and "i < length (likelihoods st)" and "j < length (likelihoods st ! i)"
  shows "grid_cell gpse likelihood i b j c st =
           Inr (st\<lparr>likelihoods := (likelihoods st)[i := (likelihoods st ! i)[j := v]]\<rparr>)"
  using assms
  by (cases "gpse (Fin 0, b, c)") (simp_all add: grid_cell_def logL_def setitem2_def)

lemma grid_cell_err:
  assumes "logL gpse likelihood (Fin 0, b, c) (gt st) (gd st) (gsigma st) = Inl e"
  shows "grid_cell gpse likelihood i b j c st = Inl e"
  using assms
  by (cases "gpse (Fin 0, b, c)") (simp_all add: grid_cell_def logL_def)

lemma grid_cell_Inr:
  assumes "grid_cell gpse likelihood i b j c st = Inr st'"
  shows "\<exists>v. logL gpse likelihood (Fin 0, b, c) (gt st) (gd st) (gsigma st) = Inr v \<and>
             i < length (likelihoods st) \<and> j < length (likelihoods st ! i) \<and>
             st' = st\<lparr>likelihoods := (likelihoods st)[i := (likelihoods st ! i)[j := v]]\<rparr>"
  using assms
  by (auto simp: grid_cell_def logL_def setitem2_def bind_err_def split: sum.splits if_splits)

lemma update2_shape: "map length (a[i := (a ! i)[j := v]]) = map length a"
proof (cases "i < length a")
  case True
  then show ?thesis by (simp add: map_update list_update_same_conv)
next
  case False
  then show ?thesis by (simp add: list_update_beyond)
qed

lemma update2_other:
  assumes "i' \<noteq> i \<or> j' \<noteq> j"
  shows "a[i := (a ! i)[j := v]] ! i' ! j' = a ! i' ! j'"
proof (cases "i < length a")
  case True
  then show ?thesis using assms by (auto simp: nth_list_update)
next
  case False
  then show ?thesis by (simp add: list_update_beyond)
qed

lemma inner_loop_ok:
  assumes "\<forall>c\<in>set cs. \<not> isl (logL gpse likelihood (Fin 0, b, c) (gt st) (gd st) (gsigma st))"
    and "i < length (likelihoods st)" and "j + length cs \<le> length (likelihoods st ! i)"
  shows "\<exists>a. inner_loop gpse likelihood i b j cs st = Inr (st\<lparr>likelihoods := a\<rparr>) \<and>
             map length a = map length (likelihoods st) \<and>
             (\<forall>k<length cs. logL gpse likelihood (Fin 0, b, cs ! k) (gt st) (gd st) (gsigma st) =
                  Inr (a ! i ! (j + k))) \<and>
             (\<forall>i' j'. i' \<noteq> i \<or> j' < j \<or> j + length cs \<le> j' \<longrightarrow>
                  a ! i' ! j' = likelihoods st ! i' ! j')"
  using assms
proof (induction cs arbitrary: j st)
  case Nil
  have "st = st\<lparr>likelihoods := likelihoods st\<rparr>" by simp
  then show ?case by (intro exI [of _ "likelihoods st"]) simp
next
  case (Cons c cs)
  let ?a = "likelihoods st"
  from Cons.prems(1) obtain v where
    v: "logL gpse likelihood (Fin 0, b, c) (gt st) (gd st) (gsigma st) = Inr v"
    by (cases "logL gpse likelihood (Fin 0, b, c) (gt st) (gd st) (gsigma st)") auto
  let ?a1 = "?a[i := (?a ! i)[j := v]]"
  let ?st1 = "st\<lparr>likelihoods := ?a1\<rparr>"
  have j: "j < length (?a ! i)" using Cons.prems(3) by simp
  have cell: "grid_cell gpse likelihood i b j c st = Inr ?st1"
    using grid_cell_ok [OF v Cons.prems(2) j] .
  have shape1: "map length ?a1 = map length ?a" by (rule update2_shape)
  have len1: "length ?a1 = length ?a" by simp
  have row1: "length (?a1 ! i) = length (?a ! i)" using Cons.prems(2) by simp
  have "\<exists>a. inner_loop gpse likelihood i b (Suc j) cs ?st1 = Inr (?st1\<lparr>likelihoods := a\<rparr>) \<and>
             map length a = map length (likelihoods ?st1) \<and>
             (\<forall>k<length cs. logL gpse likelihood (Fin 0, b, cs ! k) (gt ?st1) (gd ?st1) (gsigma ?st1) =
                  Inr (a ! i ! (Suc j + k))) \<and>
             (\<forall>i' j'. i' \<noteq> i \<or> j' < Suc j \<or> Suc j + length cs \<le> j' \<longrightarrow>
                  a ! i' ! j' = likelihoods ?st1 ! i' ! j')"
  proof (rule Cons.IH)
    show "\<forall>c\<in>set cs. \<not> isl (logL gpse likelihood (Fin 0, b, c) (gt ?st1) (gd ?st1) (gsigma ?st1))"
      using Cons.prems(1) by simp
    show "i < length (likelihoods ?st1)" using Cons.prems(2) by simp
    show "Suc j + length cs \<le> length (likelihoods ?st1 ! i)"
      using Cons.prems(2,3) by simp
  qed
  then obtain a where
    run: "inner_loop gpse likelihood i b (Suc j) cs ?st1 = Inr (st\<lparr>likelihoods := a\<rparr>)"
    and shape: "map length a = map length ?a1"
    and vals: "\<forall>k<length cs. logL gpse likelihood (Fin 0, b, cs ! k) (gt st) (gd st) (gsigma st) =
                  Inr (a ! i ! (Suc j + k))"
    and frame: "\<forall>i' j'. i' \<noteq> i \<or> j' < Suc j \<or> Suc j + length cs \<le> j' \<longrightarrow>
                  a ! i' ! j' = ?a1 ! i' ! j'"
    by auto
  have at_j: "a ! i ! j = v"
  proof -
    have "a ! i ! j = ?a1 ! i ! j" using frame by simp
    also have "\<dots> = v" using Cons.prems(2) j by simp
    finally show ?thesis .
  qed
  have "inner_loop gpse likelihood i b j (c # cs) st = Inr (st\<lparr>likelihoods := a\<rparr>)"
    using cell run by simp
  moreover have "map length a = map length ?a" using shape shape1 by simp
  moreover have "\<forall>k<length (c # cs). logL gpse likelihood (Fin 0, b, (c # cs) ! k) (gt st) (gd st) (gsigma st) =
                  Inr (a ! i ! (j + k))"
  proof (intro allI impI)
    fix k assume "k < length (c # cs)"
    then show "logL gpse likelihood (Fin 0, b, (c # cs) ! k) (gt st) (gd st) (gsigma st) =
                  Inr (a ! i ! (j + k))"
      using v at_j vals by (cases k) auto
  qed
  moreover have "\<forall>i' j'. i' \<noteq> i \<or> j' < j \<or> j + length (c # cs) \<le> j' \<longrightarrow> a ! i' ! j' = ?a ! i' ! j'"
  proof (intro allI impI)
    fix i' j' assume h: "i' \<noteq> i \<or> j' < j \<or> j + length (c # cs) \<le> j'"
    then have "a ! i' ! j' = ?a1 ! i' ! j'" using frame by auto
    also have "\<dots> = ?a ! i' ! j'" using h by (intro update2_other) auto
    finally show "a ! i' ! j' = ?a ! i' ! j'" .
  qed
  ultimately show ?case by blast
qed


lemma same_shape_nth:
  assumes "map length a' = map length a"
  shows "length a' = length a" and "r < length a \<Longrightarrow> length (a' ! r) = length (a ! r)"
proof -
  show len: "length a' = length a" using assms by (rule map_eq_imp_length_eq)
  assume r: "r < length a"
  have "map length a' ! r = map length a ! r" using assms by simp
  then show "length (a' ! r) = length (a ! r)" using r len by simp
qed

lemma inner_loop_err:
  assumes "\<exists>c\<in>set cs. isl (logL gpse likelihood (Fin 0, b, c) (gt st) (gd st) (gsigma st))"
    and "i < length (likelihoods st)" and "j + length cs \<le> length (likelihoods st ! i)"
  shows "\<exists>e k. inner_loop gpse likelihood i b j cs st = Inl e \<and> k < length cs \<and>
               logL gpse likelihood (Fin 0, b, cs ! k) (gt st) (gd st) (gsigma st) = Inl e \<and>
               (\<forall>k'<k. \<not> isl (logL gpse likelihood (Fin 0, b, cs ! k') (gt st) (gd st) (gsigma st)))"
  using assms
proof (induction cs arbitrary: j st)
  case Nil
  then show ?case by simp
next
  case (Cons c cs)
  let ?a = "likelihoods st"
  show ?case
  proof (cases "logL gpse likelihood (Fin 0, b, c) (gt st) (gd st) (gsigma st)")
    case (Inl e)
    then have "inner_loop gpse likelihood i b j (c # cs) st = Inl e"
      by (simp add: grid_cell_err)
    with Inl show ?thesis by (intro exI [of _ e] exI [of _ 0]) simp
  next
    case (Inr v)
    let ?st1 = "st\<lparr>likelihoods := ?a[i := (?a ! i)[j := v]]\<rparr>"
    have j: "j < length (?a ! i)" using Cons.prems(3) by simp
    have cell: "grid_cell gpse likelihood i b j c st = Inr ?st1"
      using grid_cell_ok [OF Inr Cons.prems(2) j] .
    from Cons.prems(1) Inr
    have rest: "\<exists>c\<in>set cs. isl (logL gpse likelihood (Fin 0, b, c) (gt ?st1) (gd ?st1) (gsigma ?st1))"
      by auto
    have "\<exists>e k. inner_loop gpse likelihood i b (Suc j) cs ?st1 = Inl e \<and> k < length cs \<and>
               logL gpse likelihood (Fin 0, b, cs ! k) (gt ?st1) (gd ?st1) (gsigma ?st1) = Inl e \<and>
               (\<forall>k'<k. \<not> isl (logL gpse likelihood (Fin 0, b, cs ! k') (gt ?st1) (gd ?st1) (gsigma ?st1)))"
    proof (rule Cons.IH [OF rest])
      show "i < length (likelihoods ?st1)" using Cons.prems(2) by simp
      show "Suc j + length cs \<le> length (likelihoods ?st1 ! i)"
        using Cons.prems(2,3) by simp
    qed
    then obtain e k where
      run: "inner_loop gpse likelihood i b (Suc j) cs ?st1 = Inl e" and k: "k < length cs"
      and err: "logL gpse likelihood (Fin 0, b, cs ! k) (gt st) (gd st) (gsigma st) = Inl e"
      and before: "\<forall>k'<k. \<not> isl (logL gpse likelihood (Fin 0, b, cs ! k') (gt st) (gd st) (gsigma st))"
      by auto
    have "\<forall>k'<Suc k. \<not> isl (logL gpse likelihood (Fin 0, b, (c # cs) ! k') (gt st) (gd st) (gsigma st))"
    proof (intro allI impI)
      fix k' assume "k' < Suc k"
      then show "\<not> isl (logL gpse likelihood (Fin 0, b, (c # cs) ! k') (gt st) (gd st) (gsigma st))"
        using Inr before by (cases k') auto
    qed
    then show ?thesis using cell run k err
      by (intro exI [of _ e] exI [of _ "Suc k"]) simp
  qed
qed

lemma outer_loop_ok:
  assumes "\<forall>b\<in>set bs. \<forall>c\<in>set cs.
             \<not> isl (logL gpse likelihood (Fin 0, b, c) (gt st) (gd st) (gsigma st))"
    and "i + length bs \<le> length (likelihoods st)"
    and "\<forall>r<length (likelihoods st). length cs \<le> length (likelihoods st ! r)"
  shows "\<exists>a. outer_loop gpse likelihood i bs cs st = Inr (st\<lparr>likelihoods := a\<rparr>) \<and>
             map length a = map length (likelihoods st) \<and>
             (\<forall>k<length bs. \<forall>l<length cs.
                logL gpse likelihood (Fin 0, bs ! k, cs ! l) (gt st) (gd st) (gsigma st) =
                  Inr (a ! (i + k) ! l)) \<and>
             (\<forall>i' j'. i' < i \<or> i + length bs \<le> i' \<or> length cs \<le> j' \<longrightarrow>
                  a ! i' ! j' = likelihoods st ! i' ! j')"
  using assms
proof (induction bs arbitrary: i st)
  case Nil
  have "st = st\<lparr>likelihoods := likelihoods st\<rparr>" by simp
  then show ?case by (intro exI [of _ "likelihoods st"]) simp
next
  case (Cons b bs)
  let ?a = "likelihoods st"
  have i: "i < length ?a" using Cons.prems(2) by simp
  have "\<exists>a. inner_loop gpse likelihood i b 0 cs st = Inr (st\<lparr>likelihoods := a\<rparr>) \<and>
             map length a = map length (likelihoods st) \<and>
             (\<forall>k<length cs. logL gpse likelihood (Fin 0, b, cs ! k) (gt st) (gd st) (gsigma st) =
                  Inr (a ! i ! (0 + k))) \<and>
             (\<forall>i' j'. i' \<noteq> i \<or> j' < 0 \<or> 0 + length cs \<le> j' \<longrightarrow>
                  a ! i' ! j' = likelihoods st ! i' ! j')"
  proof (rule inner_loop_ok)
    show "\<forall>c\<in>set cs. \<not> isl (logL gpse likelihood (Fin 0, b, c) (gt st) (gd st) (gsigma st))"
      using Cons.prems(1) by simp
    show "i < length ?a" by (rule i)
    show "0 + length cs \<le> length (?a ! i)" using Cons.prems(3) i by simp
  qed
  then obtain a1 where
    run1: "inner_loop gpse likelihood i b 0 cs st = Inr (st\<lparr>likelihoods := a1\<rparr>)"
    and shape1: "map length a1 = map length ?a"
    and vals1: "\<forall>l<length cs. logL gpse likelihood (Fin 0, b, cs ! l) (gt st) (gd st) (gsigma st) =
                  Inr (a1 ! i ! l)"
    and frame1: "\<forall>i' j'. i' \<noteq> i \<or> length cs \<le> j' \<longrightarrow> a1 ! i' ! j' = ?a ! i' ! j'"
    by auto
  let ?st1 = "st\<lparr>likelihoods := a1\<rparr>"
  have len1: "length a1 = length ?a" using same_shape_nth(1) [OF shape1] .
  have rows1: "\<And>r. r < length ?a \<Longrightarrow> length (a1 ! r) = length (?a ! r)"
    using same_shape_nth(2) [OF shape1] .
  have "\<exists>a. outer_loop gpse likelihood (Suc i) bs cs ?st1 = Inr (?st1\<lparr>likelihoods := a\<rparr>) \<and>
             map length a = map length (likelihoods ?st1) \<and>
             (\<forall>k<length bs. \<forall>l<length cs.
                logL gpse likelihood (Fin 0, bs ! k, cs ! l) (gt ?st1) (gd ?st1) (gsigma ?st1) =
                  Inr (a ! (Suc i + k) ! l)) \<and>
             (\<forall>i' j'. i' < Suc i \<or> Suc i + length bs \<le> i' \<or> length cs \<le> j' \<longrightarrow>
                  a ! i' ! j' = likelihoods ?st1 ! i' ! j')"
  proof (rule Cons.IH)
    show "\<forall>b\<in>set bs. \<forall>c\<in>set cs.
             \<not> isl (logL gpse likelihood (Fin 0, b, c) (gt ?st1) (gd ?st1) (gsigma ?st1))"
      using Cons.prems(1) by simp
    show "Suc i + length bs \<le> length (likelihoods ?st1)"
      using Cons.prems(2) len1 by simp
    show "\<forall>r<length (likelihoods ?st1). length cs \<le> length (likelihoods ?st1 ! r)"
      using Cons.prems(3) len1 rows1 by simp
  qed
  then obtain a2 where
    run2: "outer_loop gpse likelihood (Suc i) bs cs ?st1 = Inr (st\<lparr>likelihoods := a2\<rparr>)"
    and shape2: "map length a2 = map length a1"
    and vals2: "\<forall>k<length bs. \<forall>l<length cs.
                logL gpse likelihood (Fin 0, bs ! k, cs ! l) (gt st) (gd st) (gsigma st) =
                  Inr (a2 ! (Suc i + k) ! l)"
    and frame2: "\<forall>i' j'. i' < Suc i \<or> Suc i + length bs \<le> i' \<or> length cs \<le> j' \<longrightarrow>
                  a2 ! i' ! j' = a1 ! i' ! j'"
    by auto
  have "outer_loop gpse likelihood i (b # bs) cs st = Inr (st\<lparr>likelihoods := a2\<rparr>)"
    using run1 run2 by simp
  moreover have "map length a2 = map length ?a" using shape1 shape2 by simp
  moreover have "\<forall>k<length (b # bs). \<forall>l<length cs.
                logL gpse likelihood (Fin 0, (b # bs) ! k, cs ! l) (gt st) (gd st) (gsigma st) =
                  Inr (a2 ! (i + k) ! l)"
  proof (intro allI impI)
    fix k l assume k: "k < length (b # bs)" and l: "l < length cs"
    show "logL gpse likelihood (Fin 0, (b # bs) ! k, cs ! l) (gt st) (gd st) (gsigma st) =
                  Inr (a2 ! (i + k) ! l)"
    proof (cases k)
      case 0
      have "a2 ! i ! l = a1 ! i ! l" using frame2 by simp
      then show ?thesis using 0 vals1 l by simp
    next
      case (Suc k')
      then show ?thesis using vals2 k l by simp
    qed
  qed
  moreover have "\<forall>i' j'. i' < i \<or> i + length (b # bs) \<le> i' \<or> length cs \<le> j' \<longrightarrow>
                  a2 ! i' ! j' = ?a ! i' ! j'"
  proof (intro allI impI)
    fix i' j' assume h: "i' < i \<or> i + length (b # bs) \<le> i' \<or> length cs \<le> j'"
    then have "a2 ! i' ! j' = a1 ! i' ! j'" using frame2 by auto
    also have "\<dots> = ?a ! i' ! j'" using h frame1 by auto
    finally show "a2 ! i' ! j' = ?a ! i' ! j'" .
  qed
  ultimately show ?case by blast
qed

lemma outer_loop_err:
  assumes "\<exists>b\<in>set bs. \<exists>c\<in>set cs.
             isl (logL gpse likelihood (Fin 0, b, c) (gt st) (gd st) (gsigma st))"
    and "i + length bs \<le> length (likelihoods st)"
    and "\<forall>r<length (likelihoods st). length cs \<le> length (likelihoods st ! r)"
  shows "\<exists>e k l. outer_loop gpse likelihood i bs cs st = Inl e \<and> k < length bs \<and> l < length cs \<and>
               logL gpse likelihood (Fin 0, bs ! k, cs ! l) (gt st) (gd st) (gsigma st) = Inl e \<and>
               (\<forall>k' l'. l' < length cs \<and> (k' < k \<or> k' = k \<and> l' < l) \<longrightarrow>
                  \<not> isl (logL gpse likelihood (Fin 0, bs ! k', cs ! l') (gt st) (gd st) (gsigma st)))"
  using assms
proof (induction bs arbitrary: i st)
  case Nil
  then show ?case by simp
next
  case (Cons b bs)
  let ?a = "likelihoods st"
  have i: "i < length ?a" using Cons.prems(2) by simp
  have row: "0 + length cs \<le> length (?a ! i)" using Cons.prems(3) i by simp
  show ?case
  proof (cases "\<exists>c\<in>set cs. isl (logL gpse likelihood (Fin 0, b, c) (gt st) (gd st) (gsigma st))")
    case True
    from inner_loop_err [OF True i row] obtain e l where
      run: "inner_loop gpse likelihood i b 0 cs st = Inl e" and l: "l < length cs"
      and err: "logL gpse likelihood (Fin 0, b, cs ! l) (gt st) (gd st) (gsigma st) = Inl e"
      and before: "\<forall>l'<l. \<not> isl (logL gpse likelihood (Fin 0, b, cs ! l') (gt st) (gd st) (gsigma st))"
      by blast
    have "outer_loop gpse likelihood i (b # bs) cs st = Inl e" using run by simp
    moreover have "\<forall>k' l'. l' < length cs \<and> (k' < 0 \<or> k' = 0 \<and> l' < l) \<longrightarrow>
        \<not> isl (logL gpse likelihood (Fin 0, (b # bs) ! k', cs ! l') (gt st) (gd st) (gsigma st))"
      using before by simp
    ultimately show ?thesis using l err
      by (intro exI [of _ e] exI [of _ 0] exI [of _ l]) simp
  next
    case False
    then have ok: "\<forall>c\<in>set cs. \<not> isl (logL gpse likelihood (Fin 0, b, c) (gt st) (gd st) (gsigma st))"
      by simp
    from inner_loop_ok [OF ok i row] obtain a1 where
      run1: "inner_loop gpse likelihood i b 0 cs st = Inr (st\<lparr>likelihoods := a1\<rparr>)"
      and shape1: "map length a1 = map length ?a"
      by blast
    let ?st1 = "st\<lparr>likelihoods := a1\<rparr>"
    have len1: "length a1 = length ?a" using same_shape_nth(1) [OF shape1] .
    have rows1: "\<And>r. r < length ?a \<Longrightarrow> length (a1 ! r) = length (?a ! r)"
      using same_shape_nth(2) [OF shape1] .
    from Cons.prems(1) False
    have rest: "\<exists>b\<in>set bs. \<exists>c\<in>set cs.
             isl (logL gpse likelihood (Fin 0, b, c) (gt ?st1) (gd ?st1) (gsigma ?st1))"
      by auto
    have "\<exists>e k l. outer_loop gpse likelihood (Suc i) bs cs ?st1 = Inl e \<and> k < length bs \<and> l < length cs \<and>
               logL gpse likelihood (Fin 0, bs ! k, cs ! l) (gt ?st1) (gd ?st1) (gsigma ?st1) = Inl e \<and>
               (\<forall>k' l'. l' < length cs \<and> (k' < k \<or> k' = k \<and> l' < l) \<longrightarrow>
                  \<not> isl (logL gpse likelihood (Fin 0, bs ! k', cs ! l') (gt ?st1) (gd ?st1) (gsigma ?st1)))"
    proof (rule Cons.IH [OF rest])
      show "Suc i + length bs \<le> length (likelihoods ?st1)"
        using Cons.prems(2) len1 by simp
      show "\<forall>r<length (likelihoods ?st1). length cs \<le> length (likelihoods ?st1 ! r)"
        using Cons.prems(3) len1 rows1 by simp
    qed
    then obtain e k l where
      run2: "outer_loop gpse likelihood (Suc i) bs cs ?st1 = Inl e"
      and k: "k < length bs" and l: "l < length cs"
      and err: "logL gpse likelihood (Fin 0, bs ! k, cs ! l) (gt st) (gd st) (gsigma st) = Inl e"
      and before: "\<forall>k' l'. l' < length cs \<and> (k' < k \<or> k' = k \<and> l' < l) \<longrightarrow>
                  \<not> isl (logL gpse likelihood (Fin 0, bs ! k', cs ! l') (gt st) (gd st) (gsigma st))"
      by auto
    have "outer_loop gpse likelihood i (b # bs) cs st = Inl e" using run1 run2 by simp
    moreover have "\<forall>k' l'. l' < length cs \<and> (k' < Suc k \<or> k' = Suc k \<and> l' < l) \<longrightarrow>
        \<not> isl (logL gpse likelihood (Fin 0, (b # bs) ! k', cs ! l') (gt st) (gd st) (gsigma st))"
    proof (intro allI impI)
      fix k' l' assume h: "l' < length cs \<and> (k' < Suc k \<or> k' = Suc k \<and> l' < l)"
      show "\<not> isl (logL gpse likelihood (Fin 0, (b # bs) ! k', cs ! l') (gt st) (gd st) (gsigma st))"
      proof (cases k')
        case 0
        then show ?thesis using ok h by simp
      next
        case (Suc k'')
        then show ?thesis using before h by simp
      qed
    qed
    ultimately show ?thesis using k l err
      by (intro exI [of _ e] exI [of _ "Suc k"] exI [of _ l]) simp
  qed
qed


lemma zeros_shape: "length (zeros m n) = m" "r < m \<Longrightarrow> length (zeros m n ! r) = n"
  "map length (zeros m n) = replicate m n"
  by (simp_all add: zeros_def)

lemma all_cells_set:
  assumes "\<forall>i<length bs. \<forall>j<length cs. P (bs ! i) (cs ! j)"
  shows "\<forall>b\<in>set bs. \<forall>c\<in>set cs. P b c"
  using assms by (metis in_set_conv_nth)

lemma some_cell_set:
  assumes "i < length bs" "j < length cs" "P (bs ! i) (cs ! j)"
  shows "\<exists>b\<in>set bs. \<exists>c\<in>set cs. P b c"
  using assms by (meson nth_mem)

subsection \<open>The grid search fills every cell\<close>

text \<open>
  Claim C2. With \<open>m\<close> candidates for \<open>b\<close> and \<open>m\<close> for \<open>c\<close> (\<open>m = 30\<close> in the script), a
  sweep that returns has left everything but the surface as it was, the surface is
  \<open>m \<times> m\<close>, and its entry \<open>(i, j)\<close> is the log likelihood under the hyperparameters
  \<open>(0, b_search[i], c_search[j])\<close>, for every \<open>i\<close> and \<open>j\<close> below \<open>m\<close>; and the sweep does
  return when every one of these evaluations returns. No pair is skipped.
\<close>

theorem grid_search_surface:
  assumes "length bs = m" and "length cs = m"
  shows "(grid_search gpse likelihood m bs cs st = Inr st' \<longrightarrow>
            st' = st\<lparr>likelihoods := likelihoods st'\<rparr> \<and>
            map length (likelihoods st') = replicate m m \<and>
            (\<forall>i<m. \<forall>j<m.
               logL gpse likelihood (Fin 0, bs ! i, cs ! j) (gt st) (gd st) (gsigma st) =
                 Inr (likelihoods st' ! i ! j)))
       \<and> ((\<forall>i<m. \<forall>j<m.
             \<not> isl (logL gpse likelihood (Fin 0, bs ! i, cs ! j) (gt st) (gd st) (gsigma st))) \<longrightarrow>
           (\<exists>st'. grid_search gpse likelihood m bs cs st = Inr st'))"
proof -
  let ?st0 = "st\<lparr>likelihoods := zeros m m\<rparr>"
  let ?ok = "\<lambda>b c. \<not> isl (logL gpse likelihood (Fin 0, b, c) (gt ?st0) (gd ?st0) (gsigma ?st0))"
  have rows: "0 + length bs \<le> length (likelihoods ?st0)"
    using assms by (simp add: zeros_shape)
  have cols: "\<forall>r<length (likelihoods ?st0). length cs \<le> length (likelihoods ?st0 ! r)"
    using assms by (simp add: zeros_shape)
  have filled: "\<exists>a. grid_search gpse likelihood m bs cs st = Inr (st\<lparr>likelihoods := a\<rparr>) \<and>
      map length a = replicate m m \<and>
      (\<forall>i<m. \<forall>j<m. logL gpse likelihood (Fin 0, bs ! i, cs ! j) (gt st) (gd st) (gsigma st) =
                 Inr (a ! i ! j))"
    if all: "\<forall>i<m. \<forall>j<m. ?ok (bs ! i) (cs ! j)"
  proof -
    have "\<forall>b\<in>set bs. \<forall>c\<in>set cs. ?ok b c"
      using all assms by (intro all_cells_set) simp
    from outer_loop_ok [OF this rows cols] obtain a where
      "outer_loop gpse likelihood 0 bs cs ?st0 = Inr (?st0\<lparr>likelihoods := a\<rparr>)"
      "map length a = map length (likelihoods ?st0)"
      "\<forall>k<length bs. \<forall>l<length cs.
          logL gpse likelihood (Fin 0, bs ! k, cs ! l) (gt ?st0) (gd ?st0) (gsigma ?st0) =
            Inr (a ! (0 + k) ! l)"
      by blast
    then show ?thesis using assms
      by (intro exI [of _ a]) (simp add: grid_search_def zeros_shape)
  qed
  have no_failure: "?ok (bs ! i) (cs ! j)"
    if run: "grid_search gpse likelihood m bs cs st = Inr st'" and "i < m" and "j < m" for i j
  proof (rule ccontr)
    assume "\<not> ?ok (bs ! i) (cs ! j)"
    then have "\<exists>b\<in>set bs. \<exists>c\<in>set cs.
        isl (logL gpse likelihood (Fin 0, b, c) (gt ?st0) (gd ?st0) (gsigma ?st0))"
      using that assms by (intro some_cell_set [of i bs j cs]) simp_all
    from outer_loop_err [OF this rows cols] obtain e where
      "outer_loop gpse likelihood 0 bs cs ?st0 = Inl e" by blast
    with run show False by (simp add: grid_search_def)
  qed
  show ?thesis
  proof (intro conjI impI)
    assume run: "grid_search gpse likelihood m bs cs st = Inr st'"
    then have "\<forall>i<m. \<forall>j<m. ?ok (bs ! i) (cs ! j)" using no_failure by blast
    from filled [OF this] run obtain a where
      st': "st' = st\<lparr>likelihoods := a\<rparr>" and "map length a = replicate m m"
      and "\<forall>i<m. \<forall>j<m. logL gpse likelihood (Fin 0, bs ! i, cs ! j) (gt st) (gd st) (gsigma st) =
                 Inr (a ! i ! j)"
      by auto
    then show "st' = st\<lparr>likelihoods := likelihoods st'\<rparr>"
      and "map length (likelihoods st') = replicate m m"
      and "\<forall>i<m. \<forall>j<m. logL gpse likelihood (Fin 0, bs ! i, cs ! j) (gt st) (gd st) (gsigma st) =
                 Inr (likelihoods st' ! i ! j)"
      by simp_all
  next
    assume "\<forall>i<m. \<forall>j<m.
        \<not> isl (logL gpse likelihood (Fin 0, bs ! i, cs ! j) (gt st) (gd st) (gsigma st))"
    then have "\<forall>i<m. \<forall>j<m. ?ok (bs ! i) (cs ! j)" by simp
    from filled [OF this] show "\<exists>st'. grid_search gpse likelihood m bs cs st = Inr st'"
      by blast
  qed
qed

theorem grid_search_surface_witness:
  "length [Fin 1, Fin 2] = 2 \<and> length [Fin 3, Fin 4] = 2 \<and>
   grid_search gpse_id likelihood_b 2 [Fin 1, Fin 2] [Fin 3, Fin 4]
       \<lparr>gt = (), gd = (), gsigma = (), likelihoods = []\<rparr> =
     Inr \<lparr>gt = (), gd = (), gsigma = (), likelihoods = [[Fin 1, Fin 1], [Fin 2, Fin 2]]\<rparr> \<and>
   \<not> isl (logL gpse_id likelihood_b (Fin 0, Fin 1, Fin 3) () () ()) \<and>
   \<not> isl (logL gpse_id likelihood_b (Fin 0, Fin 1, Fin 4) () () ()) \<and>
   \<not> isl (logL gpse_id likelihood_b (Fin 0, Fin 2, Fin 3) () () ()) \<and>
   \<not> isl (logL gpse_id likelihood_b (Fin 0, Fin 2, Fin 4) () () ()) \<and>
   logL gpse_id likelihood_b (Fin 0, [Fin 1, Fin 2] ! 1, [Fin 3, Fin 4] ! 0) () () () =
     Inr ([[Fin 1, Fin 1], [Fin 2, Fin 2]] ! 1 ! 0)"
proof -
  let ?st = "\<lparr>gt = (), gd = (), gsigma = (), likelihoods = []\<rparr>"
  let ?st' = "\<lparr>gt = (), gd = (), gsigma = (), likelihoods = [[Fin 1, Fin 1], [Fin 2, Fin 2]]\<rparr>"
  have z: "zeros 2 2 = [[Fin 0, Fin 0], [Fin 0, Fin 0]]"
    by (simp add: zeros_def numeral_2_eq_2)
  have run: "grid_search gpse_id likelihood_b 2 [Fin 1, Fin 2] [Fin 3, Fin 4] ?st = Inr ?st'"
    by (simp add: grid_search_def z grid_cell_def setitem2_def gpse_id_def likelihood_b_def)
  have ok: "\<not> isl (logL gpse_id likelihood_b (Fin 0, b, c) () () ())" for b c
    by (simp add: logL_def gpse_id_def likelihood_b_def)
  have "\<forall>i<2. \<forall>j<2. logL gpse_id likelihood_b (Fin 0, [Fin 1, Fin 2] ! i, [Fin 3, Fin 4] ! j)
      (gt ?st) (gd ?st) (gsigma ?st) = Inr (likelihoods ?st' ! i ! j)"
    using run
      grid_search_surface [of "[Fin 1, Fin 2]" 2 "[Fin 3, Fin 4]" gpse_id likelihood_b ?st ?st']
    by simp
  from this [rule_format, of 1 0]
  have "logL gpse_id likelihood_b (Fin 0, [Fin 1, Fin 2] ! 1, [Fin 3, Fin 4] ! 0) () () () =
      Inr ([[Fin 1, Fin 1], [Fin 2, Fin 2]] ! 1 ! 0)"
    by simp
  then show ?thesis using run ok by simp
qed

subsection \<open>A failing evaluation ends the sweep\<close>

text \<open>
  Claim C5. When the evaluation of some cell raises, the sweep raises: the error is the
  one of the first failing cell in the order of the loops (every cell before it was
  evaluated without error), and no surface, with a sentinel or otherwise, is returned.
\<close>

theorem grid_search_propagates:
  assumes "length bs = m" and "length cs = m" and "i < m" and "j < m"
    and "logL gpse likelihood (Fin 0, bs ! i, cs ! j) (gt st) (gd st) (gsigma st) = Inl e"
  shows "\<exists>e' i' j'. grid_search gpse likelihood m bs cs st = Inl e' \<and> i' < m \<and> j' < m \<and>
           logL gpse likelihood (Fin 0, bs ! i', cs ! j') (gt st) (gd st) (gsigma st) = Inl e' \<and>
           (\<forall>k l. l < m \<and> (k < i' \<or> k = i' \<and> l < j') \<longrightarrow>
              \<not> isl (logL gpse likelihood (Fin 0, bs ! k, cs ! l) (gt st) (gd st) (gsigma st)))"
proof -
  let ?st0 = "st\<lparr>likelihoods := zeros m m\<rparr>"
  have rows: "0 + length bs \<le> length (likelihoods ?st0)"
    using assms by (simp add: zeros_shape)
  have cols: "\<forall>r<length (likelihoods ?st0). length cs \<le> length (likelihoods ?st0 ! r)"
    using assms by (simp add: zeros_shape)
  have "\<exists>b\<in>set bs. \<exists>c\<in>set cs.
      isl (logL gpse likelihood (Fin 0, b, c) (gt ?st0) (gd ?st0) (gsigma ?st0))"
    using assms by (intro some_cell_set [of i bs j cs]) simp_all
  from outer_loop_err [OF this rows cols] show ?thesis
    using assms(1,2) by (simp add: grid_search_def)
qed

theorem grid_search_propagates_witness:
  "length [Fin 1, Fin 2] = 2 \<and> length [Fin 1, Fin 0] = 2 \<and> (0::nat) < 2 \<and> (1::nat) < 2 \<and>
   logL gpse_nonzero likelihood_b (Fin 0, [Fin 1, Fin 2] ! 0, [Fin 1, Fin 0] ! 1) () () () =
     Inl DomainError \<and>
   (\<exists>e. grid_search gpse_nonzero likelihood_b 2 [Fin 1, Fin 2] [Fin 1, Fin 0]
       \<lparr>gt = (), gd = (), gsigma = (), likelihoods = []\<rparr> = Inl e)"
proof -
  let ?st = "\<lparr>gt = (), gd = (), gsigma = (), likelihoods = []\<rparr>"
  have err: "logL gpse_nonzero likelihood_b (Fin 0, [Fin 1, Fin 2] ! 0, [Fin 1, Fin 0] ! 1)
      (gt ?st) (gd ?st) (gsigma ?st) = Inl DomainError"
    by (simp add: logL_def gpse_nonzero_def)
  show ?thesis
    using err
      grid_search_propagates [of "[Fin 1, Fin 2]" 2 "[Fin 1, Fin 0]" 0 1 gpse_nonzero
        likelihood_b ?st DomainError]
    by auto
qed

subsection \<open>What an evaluation leaves alone\<close>

text \<open>
  The value of \<open>objective\<close> is the one computed without the arrays in view, and with a
  side-effect-free likelihood an iteration of the sweep is the one of the grid search
  above.
\<close>

lemma side_effect_freeD:
  "side_effect_free lik \<Longrightarrow> lik gp t d sigma = (fst (lik gp t d sigma), (t, d, sigma))"
  by (metis prod.collapse side_effect_free_def)

lemma objective_io_value:
  "fst (objective_io gpse lik x t d sigma) =
     objective gpse (\<lambda>gp t d sigma. fst (lik gp t d sigma)) x t d sigma"
  by (simp add: objective_io_def objective_def bind_err_def split: sum.splits prod.splits)

lemma grid_cell_io_pure:
  assumes "side_effect_free lik"
  shows "grid_cell_io gpse lik i b j c st =
           grid_cell gpse (\<lambda>gp t d sigma. fst (lik gp t d sigma)) i b j c st"
proof (cases "gpse (Fin 0, b, c)")
  case (Inl e)
  then show ?thesis by (simp add: grid_cell_io_def grid_cell_def)
next
  case (Inr gp)
  obtain r where call: "lik gp (gt st) (gd st) (gsigma st) = (r, (gt st, gd st, gsigma st))"
    using side_effect_freeD [OF assms] by blast
  show ?thesis using Inr
    by (cases r) (simp_all add: grid_cell_io_def grid_cell_def call bind_err_def split: sum.splits)
qed

text \<open>What the library does to the arrays shows through: nothing in the script undoes it.\<close>

lemma objective_io_follows_library:
  "snd (objective_io gpse_id likelihood_clobber [Fin 1, Fin 2] () [Fin 5] ()) = ((), [Fin 0], ())"
  by (simp add: objective_io_def getitem_def gpse_id_def likelihood_clobber_def likelihood_b_def)

text \<open>
  Claim C7. With a likelihood that is side-effect-free, as the design states it, a call
  of \<open>objective\<close> leaves \<open>t\<close>, \<open>d\<close> and \<open>sigma\<close> holding what they held: the script's code
  adds no write of its own, and the value is the one of \<open>objective\<close> above. One
  iteration of the sweep is then the one of the grid search above; when it completes it
  has left \<open>t\<close>, \<open>d\<close> and \<open>sigma\<close> as they were, changed nothing but \<open>likelihoods\<close>, kept
  its shape, and left every cell other than \<open>(i, j)\<close> as it was.
\<close>

theorem evaluation_frame:
  assumes "side_effect_free likelihood_io"
  shows "snd (objective_io gpse likelihood_io x t d sigma) = (t, d, sigma) \<and>
   fst (objective_io gpse likelihood_io x t d sigma) =
     objective gpse (\<lambda>gp t d sigma. fst (likelihood_io gp t d sigma)) x t d sigma \<and>
   grid_cell_io gpse likelihood_io i b_test j c_test st =
     grid_cell gpse (\<lambda>gp t d sigma. fst (likelihood_io gp t d sigma)) i b_test j c_test st \<and>
   (grid_cell_io gpse likelihood_io i b_test j c_test st = Inr st' \<longrightarrow>
      gt st' = gt st \<and> gd st' = gd st \<and> gsigma st' = gsigma st \<and>
      st' = st\<lparr>likelihoods := likelihoods st'\<rparr> \<and>
      map length (likelihoods st') = map length (likelihoods st) \<and>
      (\<forall>i' j'. i' \<noteq> i \<or> j' \<noteq> j \<longrightarrow> likelihoods st' ! i' ! j' = likelihoods st ! i' ! j'))"
proof (intro conjI impI)
  show "snd (objective_io gpse likelihood_io x t d sigma) = (t, d, sigma)"
  proof (cases "\<exists>gp. getitem x 0 \<noteq> Inl IndexError \<and> getitem x 1 \<noteq> Inl IndexError \<and>
      gpse (Fin 0, x ! 0, x ! 1) = Inr gp")
    case True
    then obtain gp where "gpse (Fin 0, x ! 0, x ! 1) = Inr gp" "0 < length x" "1 < length x"
      by (auto simp: getitem_def split: if_splits)
    moreover obtain r where "likelihood_io gp t d sigma = (r, (t, d, sigma))"
      using side_effect_freeD [OF assms] by blast
    ultimately show ?thesis
      by (simp add: objective_io_def getitem_def)
  next
    case False
    then show ?thesis
      by (auto simp: objective_io_def getitem_def split: sum.splits prod.splits if_splits)
  qed
next
  show "fst (objective_io gpse likelihood_io x t d sigma) =
     objective gpse (\<lambda>gp t d sigma. fst (likelihood_io gp t d sigma)) x t d sigma"
    by (rule objective_io_value)
next
  show "grid_cell_io gpse likelihood_io i b_test j c_test st =
     grid_cell gpse (\<lambda>gp t d sigma. fst (likelihood_io gp t d sigma)) i b_test j c_test st"
    by (rule grid_cell_io_pure [OF assms])
next
  assume "grid_cell_io gpse likelihood_io i b_test j c_test st = Inr st'"
  then have "grid_cell gpse (\<lambda>gp t d sigma. fst (likelihood_io gp t d sigma)) i b_test j c_test st = Inr st'"
    using grid_cell_io_pure [OF assms] by simp
  from grid_cell_Inr [OF this] obtain v where
    st': "st' = st\<lparr>likelihoods := (likelihoods st)[i := (likelihoods st ! i)[j := v]]\<rparr>"
    by blast
  show "gt st' = gt st" "gd st' = gd st" "gsigma st' = gsigma st"
    "st' = st\<lparr>likelihoods := likelihoods st'\<rparr>"
    by (simp_all add: st')
  show "map length (likelihoods st') = map length (likelihoods st)"
    by (simp add: st' update2_shape)
  show "\<forall>i' j'. i' \<noteq> i \<or> j' \<noteq> j \<longrightarrow> likelihoods st' ! i' ! j' = likelihoods st ! i' ! j'"
    by (simp add: st' update2_other)
qed

theorem evaluation_frame_witness:
  "side_effect_free (likelihood_b_io :: hyper \<Rightarrow> unit \<Rightarrow> vec \<Rightarrow> unit \<Rightarrow> _) \<and>
   objective_io gpse_id likelihood_b_io [Fin 1, Fin 2] () [Fin 5] () =
     (Inr (Fin (- 1)), ((), [Fin 5], ())) \<and>
   grid_cell_io gpse_id likelihood_b_io 0 (Fin 1) 1 (Fin 3)
       \<lparr>gt = (), gd = [Fin 5], gsigma = (), likelihoods = [[Fin 0, Fin 0], [Fin 0, Fin 0]]\<rparr> =
     Inr \<lparr>gt = (), gd = [Fin 5], gsigma = (), likelihoods = [[Fin 0, Fin 1], [Fin 0, Fin 0]]\<rparr> \<and>
   map length [[Fin 0, Fin 1], [Fin 0, Fin 0 :: npfloat]] =
     map length [[Fin 0, Fin 0], [Fin 0, Fin 0 :: npfloat]] \<and>
   [[Fin 0, Fin 1], [Fin 0, Fin 0]] ! 1 ! 1 = [[Fin 0, Fin 0], [Fin 0, Fin 0 :: npfloat]] ! 1 ! 1"
proof -
  let ?st = "\<lparr>gt = (), gd = [Fin 5], gsigma = (), likelihoods = [[Fin 0, Fin 0], [Fin 0, Fin 0]]\<rparr>"
  let ?st' = "\<lparr>gt = (), gd = [Fin 5], gsigma = (), likelihoods = [[Fin 0, Fin 1], [Fin 0, Fin 0]]\<rparr>"
  have pure: "side_effect_free (likelihood_b_io :: hyper \<Rightarrow> unit \<Rightarrow> vec \<Rightarrow> unit \<Rightarrow> _)"
    by (simp add: side_effect_free_def likelihood_b_io_def)
  have val: "fst (objective_io gpse_id likelihood_b_io [Fin 1, Fin 2] () [Fin 5] ()) = Inr (Fin (- 1))"
    by (simp add: objective_io_def getitem_def gpse_id_def likelihood_b_io_def likelihood_b_def
        np_neg_def)
  have run: "grid_cell_io gpse_id likelihood_b_io 0 (Fin 1) 1 (Fin 3) ?st = Inr ?st'"
    by (simp add: grid_cell_io_def setitem2_def gpse_id_def likelihood_b_io_def likelihood_b_def)
  note T = evaluation_frame [OF pure, of gpse_id "[Fin 1, Fin 2]" "()" "[Fin 5]" "()"
      0 "Fin 1" 1 "Fin 3" ?st ?st']
  have "objective_io gpse_id likelihood_b_io [Fin 1, Fin 2] () [Fin 5] () =
     (Inr (Fin (- 1)), ((), [Fin 5], ()))"
    using val T [THEN conjunct1] by (simp add: prod_eq_iff)
  then show ?thesis using pure run T by simp
qed

end
